theory Spec2Isabelle
  imports Main "HOL-Library.Char_ord" "HOL-Library.Sublist"
begin

section \<open>ssh-parallels: a shallow embedding of main.go\<close>

text \<open>
  The program lists the virtual machines of a desktop hypervisor, asks each running Linux
  guest for its network interfaces, pairs them with the hypervisor's adapter descriptors by
  MAC address, and lets the operator pick one address in a terminal menu.

  Go strings are byte sequences: \<open>string\<close> (a \<open>char list\<close>) with \<open>length\<close> for \<open>len\<close>.
  Go's \<open>int\<close> is modelled by \<open>int\<close>; no value here comes near the 64-bit bounds.
  A run-time panic is a value of type \<open>panic\<close>, returned as \<open>Inl\<close>.
\<close>

subsection \<open>Values shared by the whole program\<close>

type_synonym rune = int

datatype panic = SliceBoundsOutOfRange | NilPointerDereference

text \<open>
  Go compares errors by identity. \<open>errCtrlC\<close> is the package-level sentinel; every
  \<open>errors.New\<close> or \<open>fmt.Errorf\<close> call site makes a value distinct from it, and
  \<open>ExternalError\<close> stands for errors handed back by os/exec and termbox.
\<close>

datatype error = errCtrlC | ErrorString string | ExternalError string

abbreviation len :: "'a list \<Rightarrow> int" where
  "len xs \<equiv> int (length xs)"

text \<open>Go's integer division truncates towards zero.\<close>

definition quot :: "int \<Rightarrow> int \<Rightarrow> int" where
  "quot a b = sgn a * sgn b * (\<bar>a\<bar> div \<bar>b\<bar>)"

subsection \<open>The string functions of the standard library that the program calls\<close>

text \<open>
  \<open>strings.ToLower\<close>, byte by byte. This is what Go computes on ASCII input (the hypervisor's
  MACs are hexadecimal digits); Go's Unicode case mapping of bytes from 0x80 on is outside
  the model, and statements that depend on it assume \<open>isASCII\<close>.
\<close>

definition isASCII :: "string \<Rightarrow> bool" where
  "isASCII s = list_all (\<lambda>c. c < CHR 0x80) s"

definition toLowerByte :: "char \<Rightarrow> char" where
  "toLowerByte c =
     (if CHR ''A'' \<le> c \<and> c \<le> CHR ''Z'' then char_of (of_char c + (32::nat)) else c)"

definition ToLower :: "string \<Rightarrow> string" where
  "ToLower s = map toLowerByte s"

definition HasPrefix :: "string \<Rightarrow> string \<Rightarrow> bool" where
  "HasPrefix s pre = (take (length pre) s = pre)"

text \<open>\<open>strings.Trim s cutset\<close> for a cutset of ASCII bytes.\<close>

definition Trim :: "string \<Rightarrow> string \<Rightarrow> string" where
  "Trim s cutset =
     rev (dropWhile (\<lambda>c. c \<in> set cutset) (rev (dropWhile (\<lambda>c. c \<in> set cutset) s)))"

text \<open>
  \<open>string(r)\<close> for a rune: its UTF-8 encoding, and U+FFFD for a value that is no
  Unicode scalar.
\<close>

definition byte :: "int \<Rightarrow> char" where
  "byte n = char_of (nat n)"

definition runeString :: "rune \<Rightarrow> string" where
  "runeString r =
     (if r < 0 \<or> 0x10FFFF < r \<or> (0xD800 \<le> r \<and> r \<le> 0xDFFF)
        then [byte 0xEF, byte 0xBF, byte 0xBD]
      else if r \<le> 0x7F then [byte r]
      else if r \<le> 0x7FF then [byte (0xC0 + r div 64), byte (0x80 + r mod 64)]
      else if r \<le> 0xFFFF
        then [byte (0xE0 + r div 4096), byte (0x80 + r div 64 mod 64), byte (0x80 + r mod 64)]
      else [byte (0xF0 + r div 262144), byte (0x80 + r div 4096 mod 64),
            byte (0x80 + r div 64 mod 64), byte (0x80 + r mod 64)])"

subsection \<open>bufio.Scanner with the default line splitter\<close>

text \<open>
  The scanner cuts its input at every line feed, hands out a last unterminated line when
  it is not empty, and removes one trailing carriage return from each line. It stops for
  good at the first line that does not fit its 64 KiB buffer.
\<close>

fun splitLines :: "string \<Rightarrow> string \<Rightarrow> string list" where
  "splitLines cur [] = (if cur = [] then [] else [cur])"
| "splitLines cur (c # cs) =
     (if c = CHR 0x0A then cur # splitLines [] cs else splitLines (cur @ [c]) cs)"

definition dropCR :: "string \<Rightarrow> string" where
  "dropCR l = (if l \<noteq> [] \<and> last l = CHR 0x0D then butlast l else l)"

definition MaxScanTokenSize :: int where
  "MaxScanTokenSize = 64 * 1024"

definition scanLines :: "string \<Rightarrow> string list" where
  "scanLines output =
     map dropCR (takeWhile (\<lambda>l. len l < MaxScanTokenSize) (splitLines [] output))"

subsection \<open>Regular expressions\<close>

text \<open>
  The five package-level patterns use literals, greedy repetitions of a character class,
  capture groups and one alternation. \<open>rmatch r s caps\<close> lists every way \<open>r\<close> matches a
  prefix of \<open>s\<close> (the rest of the input and the captures), in the order a backtracking
  matcher tries them: a greedy repetition gives its longest match first, an alternation its
  left branch first. Go's regexp package returns the leftmost match and, there, the one this
  order finds first.
\<close>

datatype re = Lit string | Plus "char \<Rightarrow> bool" | Star "char \<Rightarrow> bool" | Eps
  | Seq re re | Alt re re | Grp nat re

fun rmatch :: "re \<Rightarrow> string \<Rightarrow> string list \<Rightarrow> (string \<times> string list) list" where
  "rmatch (Lit l) s caps = (if take (length l) s = l then [(drop (length l) s, caps)] else [])"
| "rmatch (Plus P) s caps =
     map (\<lambda>k. (drop k s, caps)) (rev [1..<Suc (length (takeWhile P s))])"
| "rmatch (Star P) s caps =
     map (\<lambda>k. (drop k s, caps)) (rev [0..<Suc (length (takeWhile P s))])"
| "rmatch Eps s caps = [(s, caps)]"
| "rmatch (Seq a b) s caps =
     concat (map (\<lambda>(s', caps'). rmatch b s' caps') (rmatch a s caps))"
| "rmatch (Alt a b) s caps = rmatch a s caps @ rmatch b s caps"
| "rmatch (Grp i a) s caps =
     map (\<lambda>(s', caps'). (s', caps'[i := take (length s - length s') s])) (rmatch a s caps)"

fun seqs :: "re list \<Rightarrow> re" where
  "seqs [] = Eps"
| "seqs [r] = r"
| "seqs (r # rs) = Seq r (seqs rs)"

fun ngroups :: "re \<Rightarrow> nat" where
  "ngroups (Seq a b) = max (ngroups a) (ngroups b)"
| "ngroups (Alt a b) = max (ngroups a) (ngroups b)"
| "ngroups (Grp i a) = max i (ngroups a)"
| "ngroups _ = 0"

text \<open>
  The match is searched from every start position, left to right. The result has the whole
  match at index 0 and group \<open>i\<close> at index \<open>i\<close> (empty for a group that took no part); no
  match is the empty list, Go's nil slice.
\<close>

fun findFrom :: "re \<Rightarrow> string \<Rightarrow> string list" where
  "findFrom r s =
     (case rmatch r s (replicate (Suc (ngroups r)) []) of
        (rest, caps) # _ \<Rightarrow> caps[0 := take (length s - length rest) s]
      | [] \<Rightarrow> (case s of [] \<Rightarrow> [] | _ # t \<Rightarrow> findFrom r t))"

definition FindStringSubmatch :: "re \<Rightarrow> string \<Rightarrow> string list" where
  "FindStringSubmatch r s = findFrom r s"

text \<open>The classes \<open>\d\<close>, \<open>\w\<close>, \<open>\s\<close>, \<open>[\w:]\<close>, \<open>[\d.]\<close> and the dot.\<close>

definition digit :: "char \<Rightarrow> bool" where
  "digit c = (CHR ''0'' \<le> c \<and> c \<le> CHR ''9'')"

definition word :: "char \<Rightarrow> bool" where
  "word c = (digit c \<or> (CHR ''A'' \<le> c \<and> c \<le> CHR ''Z'') \<or> (CHR ''a'' \<le> c \<and> c \<le> CHR ''z'')
       \<or> c = CHR ''_'')"

definition space :: "char \<Rightarrow> bool" where
  "space c = (c \<in> set [CHR 0x09, CHR 0x0A, CHR 0x0C, CHR 0x0D, CHR '' ''])"

definition wordColon :: "char \<Rightarrow> bool" where
  "wordColon c = (word c \<or> c = CHR '':'')"

definition digitDot :: "char \<Rightarrow> bool" where
  "digitDot c = (digit c \<or> c = CHR ''.'')"

definition dot :: "char \<Rightarrow> bool" where
  "dot c = (c \<noteq> CHR 0x0A)"

definition beginLinePattern :: re where
  "beginLinePattern =
     seqs [Grp 1 (Alt (seqs [Plus digit, Lit '': '']) Eps), Grp 2 (Plus word), Lit '': '',
           Star dot]"

definition linkLinePattern :: re where
  "linkLinePattern =
     seqs [Lit ''link/'', Grp 1 (Plus word), Lit '' '', Grp 2 (Plus wordColon), Lit '' brd '',
           Grp 3 (Plus wordColon)]"

definition inetLinePattern :: re where
  "inetLinePattern =
     seqs [Lit ''inet '', Grp 1 (Plus digitDot), Lit ''/'', Grp 2 (Plus digit), Lit '' brd '',
           Grp 3 (Plus digitDot), Lit '' '', Star dot]"

definition etherLinkPattern :: re where
  "etherLinkPattern = seqs [Lit ''ether '', Grp 1 (Plus wordColon), Star dot]"

definition inetLinePattern2 :: re where
  "inetLinePattern2 =
     seqs [Lit ''inet '', Grp 1 (Plus digitDot), Plus space, Lit ''netmask'', Plus space,
           Grp 2 (Plus digitDot), Plus space, Lit ''broadcast'', Plus space,
           Grp 3 (Plus digitDot)]"

subsection \<open>The data model\<close>

text \<open>A decoded JSON value (\<open>interface{}\<close>); the program never reads a number.\<close>

datatype jvalue = JNull | JBool bool | JNumber int | JString string
  | JArray "jvalue list" | JObject "(string \<times> jvalue) list"

text \<open>
  A Go map is an association list with one entry for each key; \<open>map_of\<close> looks a key up, and
  a missing key gives \<open>None\<close>, the nil interface value.
\<close>

type_synonym params = "(string \<times> jvalue) list"

record GuestTools =
  State :: string
  Version :: string

record VM =
  ID :: string
  Name :: string
  Type :: string
  State :: string
  OS :: string
  Uptime :: string
  Home :: string
  GuestTools :: GuestTools
  Hardware :: "(string \<times> params) list"

record LinuxIpAddr =
  IfName :: string
  LinkType :: string
  Mac :: string
  Ip :: string
  Broadcast :: string
  Mask :: string

record IpAddr =
  IP :: LinuxIpAddr
  VM :: VM
  Name :: string
  IsDefault :: bool
  Type :: string

text \<open>
  What the program cannot decide by itself: the answer of \<open>prlctl\<close> to an argument list
  (its standard output and its error), and the order in which the run time walks the
  \<open>Hardware\<close> map. Go fixes no order and may choose another one at each \<open>range\<close>
  statement: \<open>rangeHardware w vm k\<close> is the order of the walk made for the \<open>k\<close>-th interface
  record of \<open>vm\<close>.
\<close>

record World =
  prlctl :: "string list \<Rightarrow> string \<times> error option"
  rangeHardware :: "VM \<Rightarrow> nat \<Rightarrow> (string \<times> params) list"

definition rangeOk :: "World \<Rightarrow> VM \<Rightarrow> nat \<Rightarrow> bool" where
  "rangeOk w vm k =
     (distinct (map fst (rangeHardware w vm k)) \<and> set (rangeHardware w vm k) = set (Hardware vm))"

definition emptyLinuxIpAddr :: LinuxIpAddr where
  "emptyLinuxIpAddr =
     \<lparr>IfName = [], LinkType = [], Mac = [], Ip = [], Broadcast = [], Mask = []\<rparr>"

subsection \<open>Asking the guest\<close>

definition exec :: "World \<Rightarrow> VM \<Rightarrow> string list \<Rightarrow> string \<times> error option" where
  "exec w vm args = prlctl w ([''exec'', ID vm] @ args)"

fun whereisLines :: "string \<Rightarrow> string list \<Rightarrow> bool" where
  "whereisLines cmd [] = False"
| "whereisLines cmd (s # ss) =
     (if HasPrefix s (cmd @ '':'') then Trim (drop (length (cmd @ '':'')) s) '' '' \<noteq> []
      else whereisLines cmd ss)"

definition testCommandExists :: "World \<Rightarrow> VM \<Rightarrow> string \<Rightarrow> bool" where
  "testCommandExists w vm cmd =
     (case exec w vm [''whereis'', cmd] of
        (output, Some err) \<Rightarrow> False
      | (output, None) \<Rightarrow> whereisLines cmd (scanLines output))"

text \<open>The two branches that read an indented line into the current record.\<close>

definition readIfconfigLine :: "string \<Rightarrow> LinuxIpAddr \<Rightarrow> LinuxIpAddr" where
  "readIfconfigLine s ip =
     (let m = FindStringSubmatch inetLinePattern2 s in
      if length m > 0 then ip\<lparr>Ip := m ! 1, Mask := m ! 2, Broadcast := m ! 3\<rparr>
      else let m = FindStringSubmatch etherLinkPattern s in
        if length m > 0 then ip\<lparr>LinkType := ''ether'', Mac := m ! 1\<rparr> else ip)"

definition readIpLine :: "string \<Rightarrow> LinuxIpAddr \<Rightarrow> LinuxIpAddr" where
  "readIpLine s ip =
     (let m = FindStringSubmatch inetLinePattern s in
      if length m > 0 then ip\<lparr>Ip := m ! 1, Mask := m ! 2, Broadcast := m ! 3\<rparr>
      else let m = FindStringSubmatch linkLinePattern s in
        if length m > 0 then ip\<lparr>LinkType := m ! 1, Mac := m ! 2\<rparr> else ip)"

definition readInfoLine :: "bool \<Rightarrow> string \<Rightarrow> LinuxIpAddr \<Rightarrow> LinuxIpAddr" where
  "readInfoLine isIfconfig s ip = (if isIfconfig then readIfconfigLine s ip else readIpLine s ip)"

definition beginInterface :: "string \<Rightarrow> LinuxIpAddr" where
  "beginInterface s =
     (let m = FindStringSubmatch beginLinePattern s in
      if length m > 0 then emptyLinuxIpAddr\<lparr>IfName := m ! 2\<rparr> else emptyLinuxIpAddr)"

definition indented :: "string \<Rightarrow> bool" where
  "indented s = (hd s = CHR '' '' \<or> hd s = CHR 0x09)"

text \<open>
  The scanning loop of \<open>getIps\<close>: \<open>ip\<close> is the record being filled (\<open>None\<close> for the nil
  pointer), \<open>ips\<close> the records finished so far.
\<close>

fun scanInterfaces ::
  "bool \<Rightarrow> string list \<Rightarrow> LinuxIpAddr option \<Rightarrow> LinuxIpAddr list \<Rightarrow> LinuxIpAddr list" where
  "scanInterfaces isIfconfig [] ip ips = (case ip of None \<Rightarrow> ips | Some r \<Rightarrow> ips @ [r])"
| "scanInterfaces isIfconfig (s # ss) ip ips =
     (if length s = 0 then scanInterfaces isIfconfig ss ip ips
      else if \<not> indented s then
        scanInterfaces isIfconfig ss (Some (beginInterface s))
          (case ip of None \<Rightarrow> ips | Some r \<Rightarrow> ips @ [r])
      else (case ip of
          None \<Rightarrow> scanInterfaces isIfconfig ss None ips
        | Some r \<Rightarrow> scanInterfaces isIfconfig ss (Some (readInfoLine isIfconfig s r)) ips))"

text \<open>
  \<open>getIps_run\<close> is \<open>getIps\<close> together with the \<open>prlctl\<close> calls it makes, in order.
\<close>

definition getIps_run ::
  "World \<Rightarrow> VM \<Rightarrow> (LinuxIpAddr list \<times> error option) \<times> string list list" where
  "getIps_run w vm =
     (if testCommandExists w vm ''ifconfig'' then
        (case exec w vm [''ifconfig''] of
           (output, Some err) \<Rightarrow> ([], Some err)
         | (output, None) \<Rightarrow> (scanInterfaces True (scanLines output) None [], None),
         [[''exec'', ID vm, ''whereis'', ''ifconfig''], [''exec'', ID vm, ''ifconfig'']])
      else if testCommandExists w vm ''ip'' then
        (case exec w vm [''ip'', ''address'', ''show''] of
           (output, Some err) \<Rightarrow> ([], Some err)
         | (output, None) \<Rightarrow> (scanInterfaces False (scanLines output) None [], None),
         [[''exec'', ID vm, ''whereis'', ''ifconfig''], [''exec'', ID vm, ''whereis'', ''ip''],
          [''exec'', ID vm, ''ip'', ''address'', ''show'']])
      else
        (([], Some (ErrorString ''No command to get ip address'')),
         [[''exec'', ID vm, ''whereis'', ''ifconfig''], [''exec'', ID vm, ''whereis'', ''ip'']]))"

definition getIps :: "World \<Rightarrow> VM \<Rightarrow> LinuxIpAddr list \<times> error option" where
  "getIps w vm = fst (getIps_run w vm)"

subsection \<open>Pairing interfaces with adapters\<close>

text \<open>
  A slice expression \<open>m[i:j]\<close> panics unless \<open>i \<le> j \<le> len(m)\<close>; \<open>m[i:]\<close> is
  \<open>m[i:len(m)]\<close>.
\<close>

definition slice :: "string \<Rightarrow> int \<Rightarrow> int \<Rightarrow> panic + string" where
  "slice m i j = (if 0 \<le> i \<and> i \<le> j \<and> j \<le> len m then Inr (take (nat (j - i)) (drop (nat i) m))
     else Inl SliceBoundsOutOfRange)"

fun slices :: "string \<Rightarrow> (int \<times> int) list \<Rightarrow> panic + string list" where
  "slices m [] = Inr []"
| "slices m ((i, j) # ps) =
     (case slice m i j of Inl p \<Rightarrow> Inl p
      | Inr x \<Rightarrow> (case slices m ps of Inl p \<Rightarrow> Inl p | Inr xs \<Rightarrow> Inr (x # xs)))"

text \<open>
  The first two statements of \<open>compareMac\<close>: the hypervisor's MAC in lower case, cut into
  the pieces \<open>m[0:2]\<close>, ..., \<open>m[8:10]\<close>, \<open>m[10:]\<close> and joined by colons.
\<close>

definition colonJoin :: "string list \<Rightarrow> string" where
  "colonJoin xs = concat (hd xs # map (\<lambda>x. '':'' @ x) (tl xs))"

definition normalizeMac :: "string \<Rightarrow> panic + string" where
  "normalizeMac prlMac =
     (let m = ToLower prlMac in
      case slices m [(0, 2), (2, 4), (4, 6), (6, 8), (8, 10), (10, len m)] of
        Inl p \<Rightarrow> Inl p
      | Inr parts \<Rightarrow> Inr (colonJoin parts))"

definition compareMac :: "string \<Rightarrow> string \<Rightarrow> panic + bool" where
  "compareMac linuxMac prlMac =
     (case normalizeMac prlMac of Inl p \<Rightarrow> Inl p | Inr m \<Rightarrow> Inr (linuxMac = m))"

text \<open>The type assertion \<open>v.(string)\<close> in its two-valued form.\<close>

definition asString :: "jvalue option \<Rightarrow> string" where
  "asString v = (case v of Some (JString s) \<Rightarrow> s | _ \<Rightarrow> [])"

text \<open>The inner loop of \<open>showIpAddress\<close>, over one walk of the \<open>Hardware\<close> map.\<close>

fun matchAdapter :: "VM \<Rightarrow> LinuxIpAddr \<Rightarrow> (string \<times> params) list \<Rightarrow> panic + IpAddr option" where
  "matchAdapter vm ip [] = Inr None"
| "matchAdapter vm ip ((dev, params) # rest) =
     (if HasPrefix dev ''net'' then
        if map_of params ''enabled'' = Some (JBool True) then
          (case compareMac (Mac ip) (asString (map_of params ''mac'')) of
             Inl p \<Rightarrow> Inl p
           | Inr True \<Rightarrow>
               Inr (Some \<lparr>IP = ip, VM = vm, Name = dev,
                          IsDefault = (map_of params ''iface'' = Some (JString ''default'')),
                          Type = asString (map_of params ''type'')\<rparr>)
           | Inr False \<Rightarrow> matchAdapter vm ip rest)
        else matchAdapter vm ip rest
      else matchAdapter vm ip rest)"

text \<open>The outer loop; \<open>k\<close> counts the interface records already handled.\<close>

fun correlate ::
  "World \<Rightarrow> VM \<Rightarrow> nat \<Rightarrow> LinuxIpAddr list \<Rightarrow> IpAddr list \<Rightarrow> panic + IpAddr list" where
  "correlate w vm k [] addrs = Inr addrs"
| "correlate w vm k (ip # ips) addrs =
     (case matchAdapter vm ip (rangeHardware w vm k) of
        Inl p \<Rightarrow> Inl p
      | Inr None \<Rightarrow> correlate w vm (Suc k) ips addrs
      | Inr (Some a) \<Rightarrow> correlate w vm (Suc k) ips (addrs @ [a]))"

definition showIpAddress :: "World \<Rightarrow> VM \<Rightarrow> panic + (IpAddr list \<times> error option)" where
  "showIpAddress w vm =
     (if VM.State vm \<noteq> ''running'' then
        Inr ([], Some (ErrorString (VM.Name vm @ ''('' @ ID vm @ '') not running'')))
      else if OS vm = ''linux'' \<or> OS vm = ''ubuntu'' then
        (case getIps w vm of
           (ips, Some err) \<Rightarrow> Inr ([], Some err)
         | (ips, None) \<Rightarrow>
             (case correlate w vm 0 ips [] of
                Inl p \<Rightarrow> Inl p
              | Inr addrs \<Rightarrow> Inr (addrs, None)))
      else Inr ([], Some (ErrorString (OS vm @ '' is not supported''))))"

text \<open>
  The first loop of \<open>main\<close>, over the pointers that \<open>listVMs\<close> returns (\<open>None\<close> is a nil
  pointer, which the method call dereferences).
\<close>

fun availableIps :: "World \<Rightarrow> VM option list \<Rightarrow> IpAddr list \<Rightarrow> panic + IpAddr list" where
  "availableIps w [] acc = Inr acc"
| "availableIps w (None # vms) acc = Inl NilPointerDereference"
| "availableIps w (Some vm # vms) acc =
     (case showIpAddress w vm of
        Inl p \<Rightarrow> Inl p
      | Inr (ips, Some err) \<Rightarrow> availableIps w vms acc
      | Inr (ips, None) \<Rightarrow> availableIps w vms (acc @ ips))"

subsection \<open>The selection list\<close>

record listBox =
  title :: string
  titlePosX :: int
  titlePosY :: int
  originX :: int
  originY :: int
  centerX :: int
  centerY :: int
  width :: int
  height :: int
  selectIndex :: int
  content :: "string list"

text \<open>
  \<open>drawContent\<close> computes the geometry from the content, the title and the terminal size
  \<open>(tw, th)\<close> that \<open>termbox.Size\<close> reports, stores it in the receiver and paints the
  cells. The cells belong to the terminal library and are not part of the model; the
  fields are.
\<close>

definition widen :: "listBox \<Rightarrow> string \<Rightarrow> listBox" where
  "widen lb l = (if len l > width lb then lb\<lparr>width := len l + 12\<rparr> else lb)"

definition drawContent :: "int \<times> int \<Rightarrow> listBox \<Rightarrow> listBox \<times> error option" where
  "drawContent dims lb =
     (if length (content lb) = 0 then (lb, Some (ErrorString ''miss content''))
      else
        let lb = lb\<lparr>height := len (content lb) + 2\<rparr>;
            lb = foldl widen lb (content lb);
            lb = (if width lb < len (title lb) then lb\<lparr>width := len (title lb)\<rparr> else lb);
            lb = lb\<lparr>centerX := quot (fst dims) 2\<rparr>;
            lb = lb\<lparr>centerY := quot (snd dims) 2\<rparr>;
            lb = lb\<lparr>titlePosX := centerX lb - quot (len (title lb)) 2\<rparr>;
            lb = lb\<lparr>titlePosY := centerY lb - quot (height lb) 2 - 2\<rparr>;
            lb = lb\<lparr>originX := centerX lb - quot (width lb) 2\<rparr>;
            lb = lb\<lparr>originY := centerY lb - quot (height lb) 2\<rparr>
        in (lb, None))"

definition moveDown :: "int \<times> int \<Rightarrow> listBox \<Rightarrow> listBox" where
  "moveDown dims lb =
     (if selectIndex lb < len (content lb) - 1
      then fst (drawContent dims (lb\<lparr>selectIndex := selectIndex lb + 1\<rparr>)) else lb)"

definition moveUp :: "int \<times> int \<Rightarrow> listBox \<Rightarrow> listBox" where
  "moveUp dims lb =
     (if selectIndex lb > 0
      then fst (drawContent dims (lb\<lparr>selectIndex := selectIndex lb - 1\<rparr>)) else lb)"

text \<open>
  The events of the terminal library, as far as the program tells them apart: the event
  types and keys named in the source are constructors of their own, every other value is
  \<open>EventOther\<close> or \<open>KeyOther\<close>.
\<close>

datatype EventType = EventKey | EventResize | EventMouse | EventError | EventOther

datatype Key = KeyCtrlC | KeyArrowUp | KeyArrowLeft | KeyPgup | KeyArrowDown | KeyArrowRight
  | KeyPgdn | KeyEsc | KeyEnter | KeyBackspace | KeyBackspace2 | KeyDelete
  | MouseWheelUp | MouseWheelDown | KeyOther

record Event =
  Type :: EventType
  Key :: Key
  Ch :: rune
  Err :: "error option"

abbreviation rune :: "char \<Rightarrow> rune" where
  "rune c \<equiv> of_char c"

text \<open>
  One turn of the loop of \<open>displayAndSelect\<close>: the event that \<open>termbox.PollEvent\<close>
  delivers, with the terminal size in force while it is handled. The result is the list box
  afterwards and, when the turn returns, the returned pair.
\<close>

definition handleCh :: "int \<times> int \<Rightarrow> listBox \<Rightarrow> rune \<Rightarrow> listBox \<times> (int \<times> error option) option" where
  "handleCh dims lb ch =
     (if ch = rune CHR ''q'' \<or> ch = rune CHR ''Q'' then (lb, Some (0, Some errCtrlC))
      else if ch = rune CHR ''k'' \<or> ch = rune CHR ''K'' then (moveUp dims lb, None)
      else if ch = rune CHR ''j'' \<or> ch = rune CHR ''J'' then (moveDown dims lb, None)
      else (lb, None))"

definition handleEvent ::
  "int \<times> int \<Rightarrow> listBox \<Rightarrow> Event \<Rightarrow> listBox \<times> (int \<times> error option) option" where
  "handleEvent dims lb ev =
     (case Event.Type ev of
        EventResize \<Rightarrow> (fst (drawContent dims lb), None)
      | EventKey \<Rightarrow>
          (if Key ev = KeyCtrlC then (lb, Some (selectIndex lb, Some errCtrlC))
           else if Key ev \<in> {KeyArrowUp, KeyArrowLeft, KeyPgup} then (moveUp dims lb, None)
           else if Key ev \<in> {KeyArrowDown, KeyArrowRight, KeyPgdn} then (moveDown dims lb, None)
           else if Key ev = KeyEsc then (lb, Some (0, Some errCtrlC))
           else if Key ev = KeyEnter then (lb, Some (selectIndex lb, None))
           else handleCh dims lb (Ch ev))
      | EventMouse \<Rightarrow>
          (if Key ev = MouseWheelUp then (moveUp dims lb, None)
           else if Key ev = MouseWheelDown then (moveDown dims lb, None)
           else (lb, None))
      | EventError \<Rightarrow> (lb, Some (- 1, Err ev))
      | EventOther \<Rightarrow> (lb, None))"

text \<open>
  The loop over the events that arrive. It returns with the first event that closes the
  list; \<open>None\<close> in the second component says that the events given did not close it and the
  loop waits for the next one.
\<close>

fun pollEvents ::
  "listBox \<Rightarrow> (Event \<times> (int \<times> int)) list \<Rightarrow> listBox \<times> (int \<times> error option) option" where
  "pollEvents lb [] = (lb, None)"
| "pollEvents lb ((ev, dims) # evs) =
     (case handleEvent dims lb ev of
        (lb', Some r) \<Rightarrow> (lb', Some r)
      | (lb', None) \<Rightarrow> pollEvents lb' evs)"

text \<open>
  \<open>displayAndSelect\<close>: \<open>init\<close> is the result of \<open>termbox.Init\<close>, \<open>dims\<close> the terminal
  size at the first drawing.
\<close>

definition displayAndSelect ::
  "error option \<Rightarrow> int \<times> int \<Rightarrow> listBox \<Rightarrow> (Event \<times> (int \<times> int)) list
     \<Rightarrow> listBox \<times> (int \<times> error option) option" where
  "displayAndSelect init dims lb evs =
     (case init of
        Some err \<Rightarrow> (lb, Some (- 1, Some err))
      | None \<Rightarrow> pollEvents (fst (drawContent dims lb)) evs)"

subsection \<open>The user name prompt\<close>

text \<open>
  The loop of \<open>askForUsername\<close> keeps the text typed so far in \<open>name\<close>; its drawing
  closure only paints. \<open>promptStep\<close> is one turn: \<open>Inr (name', None)\<close> goes on with the
  new text, \<open>Inr (_, Some r)\<close> returns \<open>r\<close>, \<open>Inl\<close> is a panic.
\<close>

definition promptStep ::
  "string \<Rightarrow> Event \<Rightarrow> panic + (string \<times> (string \<times> error option) option)" where
  "promptStep name ev =
     (case Event.Type ev of
        EventKey \<Rightarrow>
          (if Key ev = KeyCtrlC then Inr (name, Some ([], Some errCtrlC))
           else if Key ev = KeyEsc then Inr (name, Some ([], Some (ErrorString ''cancelled'')))
           else if Key ev \<in> {KeyBackspace, KeyBackspace2, KeyDelete} then
             (case slice name 0 (len name - 2) of
                Inl p \<Rightarrow> Inl p
              | Inr name' \<Rightarrow> Inr (name', None))
           else if Key ev = KeyEnter then Inr (name, Some (name, None))
           else Inr (name @ runeString (Ch ev), None))
      | _ \<Rightarrow> Inr (name, None))"

fun entering ::
  "string \<Rightarrow> Event list \<Rightarrow> panic + (string \<times> (string \<times> error option) option)" where
  "entering name [] = Inr (name, None)"
| "entering name (ev # evs) =
     (case promptStep name ev of
        Inl p \<Rightarrow> Inl p
      | Inr (name', Some r) \<Rightarrow> Inr (name', Some r)
      | Inr (name', None) \<Rightarrow> entering name' evs)"

definition askForUsername ::
  "error option \<Rightarrow> Event list \<Rightarrow> panic + (string \<times> (string \<times> error option) option)" where
  "askForUsername init evs =
     (case init of
        Some err \<Rightarrow> Inr ([], Some ([], Some err))
      | None \<Rightarrow> entering [] evs)"

subsection \<open>Concrete inputs\<close>

text \<open>
  Small inputs on which the definitions are run: key events, the list box that \<open>main\<close>
  builds, a guest that answers \<open>prlctl exec\<close> from a table, and a running Linux VM.
\<close>

definition keyEvent :: "Key \<Rightarrow> Event" where
  "keyEvent k = \<lparr>Event.Type = EventKey, Key = k, Ch = 0, Err = None\<rparr>"

definition chEvent :: "char \<Rightarrow> Event" where
  "chEvent c = \<lparr>Event.Type = EventKey, Key = KeyOther, Ch = rune c, Err = None\<rparr>"

definition wheelEvent :: "Key \<Rightarrow> Event" where
  "wheelEvent k = \<lparr>Event.Type = EventMouse, Key = k, Ch = 0, Err = None\<rparr>"

text \<open>The composite literal \<open>&listBox{title: t, content: c}\<close>: every other field is zero.\<close>

definition newListBox :: "string \<Rightarrow> string list \<Rightarrow> listBox" where
  "newListBox t c =
     \<lparr>title = t, titlePosX = 0, titlePosY = 0, originX = 0, originY = 0, centerX = 0,
      centerY = 0, width = 0, height = 0, selectIndex = 0, content = c\<rparr>"

definition textOf :: "string list \<Rightarrow> string" where
  "textOf ls = concat (map (\<lambda>l. l @ [CHR 0x0A]) ls)"

definition guest :: "(string list \<times> string) list \<Rightarrow> string list \<Rightarrow> string \<times> error option" where
  "guest answers args =
     (case map_of answers args of
        Some output \<Rightarrow> (output, None)
      | None \<Rightarrow> ([], Some (ExternalError ''exit status 1'')))"

definition worldOf :: "(string list \<times> string) list \<Rightarrow> (string \<times> params) list \<Rightarrow> World" where
  "worldOf answers hw = \<lparr>prlctl = guest answers, rangeHardware = (\<lambda>vm k. hw)\<rparr>"

definition linuxVM :: "string \<Rightarrow> string \<Rightarrow> (string \<times> params) list \<Rightarrow> VM" where
  "linuxVM state os hw =
     \<lparr>ID = ''vm1'', VM.Name = ''dev'', VM.Type = ''VM'', VM.State = state, OS = os, Uptime = [],
      Home = [], GuestTools = \<lparr>GuestTools.State = [], Version = []\<rparr>, Hardware = hw\<rparr>"

text \<open>An adapter without a \<open>mac\<close> entry, and a guest that has \<open>ifconfig\<close> and one interface.\<close>

definition noMacHardware :: "(string \<times> params) list" where
  "noMacHardware = [(''net0'', [(''enabled'', JBool True)])]"

definition oneInterfaceGuest :: "(string list \<times> string) list" where
  "oneInterfaceGuest =
     [([''exec'', ''vm1'', ''whereis'', ''ifconfig''], textOf [''ifconfig: /sbin/ifconfig'']),
      ([''exec'', ''vm1'', ''ifconfig''], textOf [''e0: up'', '' ether 00:1c:42:c4:5c:24''])]"

text \<open>A list box with three lines, and five navigation events at a terminal of 80 by 24.\<close>

definition threeLines :: listBox where
  "threeLines = newListBox ''Choose VM from parallels'' [''a'', ''b'', ''c'']"

subsection \<open>Navigation as the specification describes it\<close>

text \<open>
  The specification names the navigation events (up or previous, down or next, page up and
  down, the wheel) and says that each moves the selection by one, clamped to the list.
  \<open>spec_move n i ev\<close> is the index after \<open>ev\<close>, for a list of \<open>n\<close> lines and the index \<open>i\<close>;
  these definitions follow the specification and are compared with the code below.
\<close>

definition upEvents :: "Event list" where
  "upEvents = [keyEvent KeyArrowUp, keyEvent KeyArrowLeft, keyEvent KeyPgup,
     chEvent CHR ''k'', chEvent CHR ''K'', wheelEvent MouseWheelUp]"

definition downEvents :: "Event list" where
  "downEvents = [keyEvent KeyArrowDown, keyEvent KeyArrowRight, keyEvent KeyPgdn,
     chEvent CHR ''j'', chEvent CHR ''J'', wheelEvent MouseWheelDown]"

definition spec_direction :: "Event \<Rightarrow> int" where
  "spec_direction ev = (if ev \<in> set upEvents then - 1 else if ev \<in> set downEvents then 1 else 0)"

definition spec_move :: "int \<Rightarrow> int \<Rightarrow> Event \<Rightarrow> int" where
  "spec_move n i ev = max 0 (min (n - 1) (i + spec_direction ev))"

definition navigation :: "(Event \<times> (int \<times> int)) list" where
  "navigation = map (\<lambda>ev. (ev, (80, 24)))
     [keyEvent KeyArrowUp, keyEvent KeyArrowDown, chEvent CHR ''j'', wheelEvent MouseWheelDown,
      keyEvent KeyPgup]"

text \<open>
  A device that is no network adapter and two adapters with a MAC each; the record that the
  scanning loop builds for an interface of which it reads the name and the MAC; and the
  address that \<open>showIpAddress\<close> builds for such a record matched with \<open>net0\<close>.
\<close>

definition macHardware :: "(string \<times> params) list" where
  "macHardware =
     [(''usb'', [(''enabled'', JBool True)]),
      (''net0'', [(''enabled'', JBool True), (''mac'', JString ''001C42C45C24''),
                 (''type'', JString ''shared''), (''iface'', JString ''default'')]),
      (''net1'', [(''enabled'', JBool True), (''mac'', JString ''001C42C45C25''),
                 (''type'', JString ''bridged'')])]"

definition etherRecord :: "string \<Rightarrow> string \<Rightarrow> LinuxIpAddr" where
  "etherRecord name mac = emptyLinuxIpAddr\<lparr>IfName := name, LinkType := ''ether'', Mac := mac\<rparr>"

definition net0Address :: "VM \<Rightarrow> LinuxIpAddr \<Rightarrow> IpAddr" where
  "net0Address vm r =
     \<lparr>IP = r, VM = vm, IpAddr.Name = ''net0'', IsDefault = True, IpAddr.Type = ''shared''\<rparr>"

text \<open>
  The address for a record matched with \<open>net1\<close>; a guest with two interfaces and a MAC
  each; and a guest whose bridge \<open>br0\<close> carries the MAC of its member \<open>e0\<close>.
\<close>

definition net1Address :: "VM \<Rightarrow> LinuxIpAddr \<Rightarrow> IpAddr" where
  "net1Address vm r =
     \<lparr>IP = r, VM = vm, IpAddr.Name = ''net1'', IsDefault = False, IpAddr.Type = ''bridged''\<rparr>"

definition twoInterfaceGuest :: "(string list \<times> string) list" where
  "twoInterfaceGuest =
     [([''exec'', ''vm1'', ''whereis'', ''ifconfig''], textOf [''ifconfig: /sbin/ifconfig'']),
      ([''exec'', ''vm1'', ''ifconfig''],
       textOf [''e0: up'', '' ether 00:1c:42:c4:5c:24'', ''e1: up'', '' ether 00:1c:42:c4:5c:25''])]"

definition twinGuest :: "(string list \<times> string) list" where
  "twinGuest =
     [([''exec'', ''vm1'', ''whereis'', ''ifconfig''], textOf [''ifconfig: /sbin/ifconfig'']),
      ([''exec'', ''vm1'', ''ifconfig''],
       textOf [''e0: up'', '' ether 00:1c:42:c4:5c:24'', ''br0: up'', '' ether 00:1c:42:c4:5c:24''])]"

subsection \<open>Interface blocks as the specification describes them\<close>




text \<open>
  A listing in the format of \<open>ip address show\<close>, with an indented line before the first
  marker and an empty line; the two records it describes; a guest that has only \<open>ip\<close>, and
  a guest that has both \<open>ifconfig\<close> and \<open>ip\<close>.
\<close>

definition ipListing :: string where
  "ipListing = textOf
     [''    inet 10.0.0.9/24 brd 10.0.0.255 x'',
      ''1: lo: up'',
      ''    link/loopback 00:00:00:00:00:00 brd 00:00:00:00:00:00'',
      [],
      ''2: e0: up'',
      ''    link/ether 00:1c:42:c4:5c:24 brd ff:ff:ff:ff:ff:ff'',
      ''    inet 10.0.0.5/24 brd 10.0.0.255 e0'']"

definition loRecord :: LinuxIpAddr where
  "loRecord = \<lparr>IfName = ''lo'', LinkType = ''loopback'', Mac = ''00:00:00:00:00:00'', Ip = [],
     Broadcast = [], Mask = []\<rparr>"

definition e0Record :: LinuxIpAddr where
  "e0Record = \<lparr>IfName = ''e0'', LinkType = ''ether'', Mac = ''00:1c:42:c4:5c:24'',
     Ip = ''10.0.0.5'', Broadcast = ''10.0.0.255'', Mask = ''24''\<rparr>"

definition ipOnlyGuest :: "(string list \<times> string) list" where
  "ipOnlyGuest =
     [([''exec'', ''vm1'', ''whereis'', ''ifconfig''], textOf [''ifconfig:'']),
      ([''exec'', ''vm1'', ''whereis'', ''ip''], textOf [''ip: /sbin/ip'']),
      ([''exec'', ''vm1'', ''ip'', ''address'', ''show''], ipListing)]"

definition bothGuest :: "(string list \<times> string) list" where
  "bothGuest =
     [([''exec'', ''vm1'', ''whereis'', ''ifconfig''], textOf [''ifconfig: /sbin/ifconfig'']),
      ([''exec'', ''vm1'', ''ifconfig''], textOf [''e0: up'', '' ether 00:1c:42:c4:5c:24'']),
      ([''exec'', ''vm1'', ''whereis'', ''ip''], textOf [''ip: /sbin/ip'']),
      ([''exec'', ''vm1'', ''ip'', ''address'', ''show''], ipListing)]"

section \<open>Properties\<close>

subsection \<open>Lower case and MAC normalisation\<close>

lemma toLowerByte_idem: "toLowerByte (toLowerByte c) = toLowerByte c"
  by (auto simp: toLowerByte_def less_eq_char_def)

lemma ToLower_idem: "ToLower (ToLower s) = ToLower s"
  by (simp add: ToLower_def toLowerByte_idem)

lemma length_ToLower: "length (ToLower s) = length s"
  by (simp add: ToLower_def)

lemma normalizeMac_long:
  assumes "10 \<le> length m"
  shows "normalizeMac m = Inr (take 2 (ToLower m) @ '':'' @ take 2 (drop 2 (ToLower m)) @ '':'' @
     take 2 (drop 4 (ToLower m)) @ '':'' @ take 2 (drop 6 (ToLower m)) @ '':'' @
     take 2 (drop 8 (ToLower m)) @ '':'' @ drop 10 (ToLower m))"
  using assms by (simp add: normalizeMac_def Let_def slice_def colonJoin_def length_ToLower)

lemma normalizeMac_short:
  assumes "length m < 10"
  shows "normalizeMac m = Inl SliceBoundsOutOfRange"
  using assms by (simp add: normalizeMac_def Let_def slice_def length_ToLower)

lemma six_pieces:
  "take 2 m @ take 2 (drop 2 m) @ take 2 (drop 4 m) @ take 2 (drop 6 m) @ take 2 (drop 8 m)
     @ drop 10 m = m"
proof -
  have d: "\<And>k xs. take 2 (drop k xs) @ drop (k + 2) xs = drop k (xs::'a list)"
    by (metis add.commute append_take_drop_id drop_drop)
  have "take 2 (drop 8 m) @ drop 10 m = drop 8 m" using d [of 8 m] by simp
  moreover have "take 2 (drop 6 m) @ drop 8 m = drop 6 m" using d [of 6 m] by simp
  moreover have "take 2 (drop 4 m) @ drop 6 m = drop 4 m" using d [of 4 m] by simp
  moreover have "take 2 (drop 2 m) @ drop 4 m = drop 2 m" using d [of 2 m] by simp
  moreover have "take 2 m @ drop 2 m = m" by simp
  ultimately show ?thesis by simp
qed

lemma normalizeMac_length:
  assumes "10 \<le> length m" and "normalizeMac m = Inr n"
  shows "length n = length m + 5"
proof -
  have "length (ToLower m) = length m" by (rule length_ToLower)
  with assms show ?thesis by (auto simp: normalizeMac_long)
qed

lemma normalizeMac_letters:
  assumes "10 \<le> length m" and "normalizeMac m = Inr n"
  shows "filter (\<lambda>c. c \<noteq> CHR '':'') n = filter (\<lambda>c. c \<noteq> CHR '':'') (ToLower m)"
proof -
  let ?l = "ToLower m"
  have "filter (\<lambda>c. c \<noteq> CHR '':'') n =
      filter (\<lambda>c. c \<noteq> CHR '':'') (take 2 ?l @ take 2 (drop 2 ?l) @ take 2 (drop 4 ?l)
        @ take 2 (drop 6 ?l) @ take 2 (drop 8 ?l) @ drop 10 ?l)"
    using assms by (auto simp: normalizeMac_long)
  then show ?thesis by (simp only: six_pieces)
qed

lemma compareMac_panic_iff:
  "compareMac linuxMac prlMac = Inl SliceBoundsOutOfRange \<longleftrightarrow> length prlMac < 10"
proof (cases "length prlMac < 10")
  case True
  then show ?thesis by (simp add: compareMac_def normalizeMac_short)
next
  case False
  then have "10 \<le> length prlMac" by simp
  then show ?thesis using False by (simp add: compareMac_def normalizeMac_long)
qed

subsection \<open>The MAC comparison\<close>

text \<open>
  Claim C2. \<open>compareMac\<close> returns a value only for a hypervisor-side MAC of at least ten
  bytes: on every shorter one the fixed slices panic with \<open>slice bounds out of range\<close>. The
  type assertion of \<open>showIpAddress\<close> gives the empty string for a \<open>mac\<close> entry that is
  missing or is no string, so the panic is reached from \<open>showIpAddress\<close>: a running Linux
  guest with one interface and an enabled adapter \<open>net0\<close> without \<open>mac\<close> is enough.
\<close>

theorem compareMac_slicing_can_panic:
  "isASCII prlMac \<Longrightarrow>
     (compareMac linuxMac prlMac = Inl SliceBoundsOutOfRange \<longleftrightarrow> length prlMac < 10)
     \<and> asString None = [] \<and> asString (Some (JBool True)) = []
     \<and> showIpAddress (worldOf oneInterfaceGuest noMacHardware)
          (linuxVM ''running'' ''linux'' noMacHardware) = Inl SliceBoundsOutOfRange"
proof -
  have "showIpAddress (worldOf oneInterfaceGuest noMacHardware)
          (linuxVM ''running'' ''linux'' noMacHardware) = Inl SliceBoundsOutOfRange"
    by code_simp
  then show ?thesis by (simp add: compareMac_panic_iff asString_def)
qed

text \<open>The statement of C2 at the MAC of a real adapter, which is long enough.\<close>

theorem compareMac_slicing_can_panic_witness:
  "isASCII ''001C42C45C24'' \<and>
     ((compareMac ''00:1c:42:c4:5c:24'' ''001C42C45C24'' = Inl SliceBoundsOutOfRange
        \<longleftrightarrow> length ''001C42C45C24'' < 10)
     \<and> asString None = [] \<and> asString (Some (JBool True)) = []
     \<and> showIpAddress (worldOf oneInterfaceGuest noMacHardware)
          (linuxVM ''running'' ''linux'' noMacHardware) = Inl SliceBoundsOutOfRange)"
proof -
  have h: "isASCII ''001C42C45C24''" by code_simp
  from compareMac_slicing_can_panic [OF h, of "''00:1c:42:c4:5c:24''"] h show ?thesis by blast
qed

text \<open>
  Claim C5, as the specification words it, fails in its first half: the normalisation
  inserts its five colons at fixed positions into whatever it is given, so a value that is
  already lower case and colon-separated comes back with colons doubled and digits split.
\<close>

theorem normalizeMac_idempotent_counterexample:
  "normalizeMac ''aa:11:bb:22:cc:33'' = Inr ''aa::1:1::bb::2:2:cc:33''
   \<and> normalizeMac ''aa:11:bb:22:cc:33'' \<noteq> Inr ''aa:11:bb:22:cc:33''"
  by code_simp

text \<open>
  Claim C5, amended. The normalisation is case-insensitive: \<open>AA11BB22CC33\<close> becomes
  \<open>aa:11:bb:22:cc:33\<close>, and an ASCII input and its lower-case form have the same
  result. It is never idempotent: on an ASCII input of at least ten bytes the result is the
  lower-case input with five colons added, five bytes longer, so normalising the result
  gives something else.
\<close>

theorem normalizeMac_case_insensitive:
  "normalizeMac ''AA11BB22CC33'' = Inr ''aa:11:bb:22:cc:33''
   \<and> (isASCII m \<longrightarrow> normalizeMac (ToLower m) = normalizeMac m)
   \<and> (isASCII m \<and> 10 \<le> length m \<longrightarrow>
        (\<exists>n. normalizeMac m = Inr n \<and> length n = length m + 5
           \<and> filter (\<lambda>c. c \<noteq> CHR '':'') n = filter (\<lambda>c. c \<noteq> CHR '':'') (ToLower m)
           \<and> normalizeMac n \<noteq> Inr n))"
proof (intro conjI impI)
  show "normalizeMac ''AA11BB22CC33'' = Inr ''aa:11:bb:22:cc:33''" by code_simp
next
  show "normalizeMac (ToLower m) = normalizeMac m"
    by (simp add: normalizeMac_def ToLower_idem length_ToLower)
next
  assume a: "isASCII m \<and> 10 \<le> length m"
  then have long: "10 \<le> length m" by simp
  then obtain n where n: "normalizeMac m = Inr n" by (simp add: normalizeMac_long)
  have ln: "length n = length m + 5" using long n by (rule normalizeMac_length)
  have "normalizeMac n \<noteq> Inr n"
  proof
    assume "normalizeMac n = Inr n"
    moreover have "10 \<le> length n" using ln long by simp
    ultimately have "length n = length n + 5" by (rule normalizeMac_length [rotated])
    then show False by simp
  qed
  with n ln normalizeMac_letters [OF long n]
  show "\<exists>n. normalizeMac m = Inr n \<and> length n = length m + 5
           \<and> filter (\<lambda>c. c \<noteq> CHR '':'') n = filter (\<lambda>c. c \<noteq> CHR '':'') (ToLower m)
           \<and> normalizeMac n \<noteq> Inr n" by blast
qed

text \<open>The amended C5 at the MAC of a real adapter.\<close>

theorem normalizeMac_case_insensitive_witness:
  "isASCII ''001C42C45C24'' \<and> 10 \<le> length ''001C42C45C24''
   \<and> normalizeMac (ToLower ''001C42C45C24'') = normalizeMac ''001C42C45C24''
   \<and> (\<exists>n. normalizeMac ''001C42C45C24'' = Inr n \<and> length n = 17 \<and> normalizeMac n \<noteq> Inr n)"
proof -
  have h: "isASCII ''001C42C45C24''" by code_simp
  have l: "10 \<le> length ''001C42C45C24''" by simp
  from normalizeMac_case_insensitive [of "''001C42C45C24''"] h l show ?thesis by auto
qed

subsection \<open>The user name prompt\<close>

text \<open>
  Claim C1. The specification says that a backspace on an empty or one-byte buffer does
  nothing. The code evaluates \<open>name[:len(name)-2]\<close> without a guard: with fewer than two
  bytes typed the upper bound is negative and the program panics. A backspace as the first
  event, or after one character, ends \<open>askForUsername\<close> with the panic; after three
  characters it leaves the first one.
\<close>

theorem askForUsername_backspace_on_short_buffer_panics:
  "askForUsername None [keyEvent KeyBackspace] = Inl SliceBoundsOutOfRange
   \<and> askForUsername None [chEvent CHR ''a'', keyEvent KeyDelete] = Inl SliceBoundsOutOfRange
   \<and> askForUsername None
        [chEvent CHR ''a'', chEvent CHR ''b'', chEvent CHR ''c'', keyEvent KeyBackspace2]
       = Inr (''a'', None)"
  by code_simp

subsection \<open>The geometry of the list box\<close>

text \<open>
  Claim C8. The specification gives the box the width \<open>max (longest line + 12) (title
  length)\<close>. The loop of \<open>drawContent\<close> compares the bare length of a line with a width
  that already holds the margin of twelve, so a line up to twelve bytes longer than an
  earlier one does not widen the box: for lines of five and ten bytes and an empty title
  the width is 17, not 22, and a single empty line gives the width 0, not 12.
\<close>

theorem drawContent_width_misses_longest_line:
  "width (fst (drawContent (80, 24) (newListBox [] [''aaaaa'', ''aaaaaaaaaa'']))) = 17
   \<and> max (len ''aaaaaaaaaa'' + 12) (len (title (newListBox [] [''aaaaa'', ''aaaaaaaaaa'']))) = 22
   \<and> width (fst (drawContent (80, 24) (newListBox [] [[]]))) = 0"
  by code_simp

subsection \<open>The selection list\<close>

text \<open>
  Events that do not close the list can be handled one after the other, drawing leaves the
  selection and the content alone, and the two moving functions do what their names say.
\<close>

lemma pollEvents_append:
  "snd (pollEvents lb evs) = None \<Longrightarrow>
     pollEvents lb (evs @ rest) = pollEvents (fst (pollEvents lb evs)) rest"
proof (induction evs arbitrary: lb)
  case Nil
  then show ?case by simp
next
  case (Cons e evs)
  obtain ev dims where e: "e = (ev, dims)" by (cases e)
  obtain lb' r where h: "handleEvent dims lb ev = (lb', r)" by (cases "handleEvent dims lb ev")
  show ?case
  proof (cases r)
    case None
    with Cons e h show ?thesis by simp
  next
    case (Some a)
    with Cons.prems e h show ?thesis by simp
  qed
qed

lemma drawContent_keeps:
  "selectIndex (fst (drawContent dims lb)) = selectIndex lb
   \<and> content (fst (drawContent dims lb)) = content lb"
proof -
  have w: "\<And>ls b. selectIndex (foldl widen b ls) = selectIndex b \<and> content (foldl widen b ls) = content b"
  proof -
    fix ls b show "selectIndex (foldl widen b ls) = selectIndex b \<and> content (foldl widen b ls) = content b"
      by (induction ls arbitrary: b) (simp_all add: widen_def)
  qed
  show ?thesis by (simp add: drawContent_def Let_def w)
qed

lemma moveUp_spec:
  "selectIndex (moveUp dims lb) = (if selectIndex lb > 0 then selectIndex lb - 1 else selectIndex lb)
   \<and> content (moveUp dims lb) = content lb"
  by (simp add: moveUp_def drawContent_keeps)

lemma moveDown_spec:
  "selectIndex (moveDown dims lb) =
     (if selectIndex lb < len (content lb) - 1 then selectIndex lb + 1 else selectIndex lb)
   \<and> content (moveDown dims lb) = content lb"
  by (simp add: moveDown_def drawContent_keeps)

lemma handleEvent_up:
  "ev \<in> set upEvents \<Longrightarrow> handleEvent dims lb ev = (moveUp dims lb, None)"
  by (auto simp: upEvents_def handleEvent_def handleCh_def keyEvent_def chEvent_def wheelEvent_def)

lemma handleEvent_down:
  "ev \<in> set downEvents \<Longrightarrow> handleEvent dims lb ev = (moveDown dims lb, None)"
  by (auto simp: downEvents_def handleEvent_def handleCh_def keyEvent_def chEvent_def wheelEvent_def)

lemma up_not_down: "ev \<in> set upEvents \<Longrightarrow> ev \<notin> set downEvents"
  by (auto simp: upEvents_def downEvents_def keyEvent_def chEvent_def wheelEvent_def)

lemma handleEvent_nav:
  assumes "spec_direction ev \<noteq> 0" and "0 \<le> selectIndex lb" and "selectIndex lb < len (content lb)"
  shows "snd (handleEvent dims lb ev) = None
     \<and> content (fst (handleEvent dims lb ev)) = content lb
     \<and> selectIndex (fst (handleEvent dims lb ev)) = spec_move (len (content lb)) (selectIndex lb) ev"
proof (cases "ev \<in> set upEvents")
  case True
  then show ?thesis using assms
    by (auto simp add: handleEvent_up moveUp_spec spec_move_def spec_direction_def max_def min_def)
next
  case False
  with assms have "ev \<in> set downEvents" by (simp add: spec_direction_def split: if_splits)
  then show ?thesis using assms False
    by (auto simp add: handleEvent_down moveDown_spec spec_move_def spec_direction_def max_def min_def)
qed

lemma spec_move_range:
  "0 \<le> i \<Longrightarrow> i < n \<Longrightarrow> 0 \<le> spec_move n i ev \<and> spec_move n i ev < n"
  by (auto simp add: spec_move_def spec_direction_def max_def min_def)

lemma pollEvents_nav:
  "\<forall>e \<in> set evs. spec_direction (fst e) \<noteq> 0 \<Longrightarrow>
   0 \<le> selectIndex lb \<Longrightarrow> selectIndex lb < len (content lb) \<Longrightarrow>
     snd (pollEvents lb evs) = None
     \<and> content (fst (pollEvents lb evs)) = content lb
     \<and> selectIndex (fst (pollEvents lb evs))
         = foldl (spec_move (len (content lb))) (selectIndex lb) (map fst evs)
     \<and> 0 \<le> selectIndex (fst (pollEvents lb evs))
     \<and> selectIndex (fst (pollEvents lb evs)) < len (content lb)"
proof (induction evs arbitrary: lb)
  case Nil
  then show ?case by simp
next
  case (Cons e evs)
  obtain ev dims where e: "e = (ev, dims)" by (cases e)
  obtain lb' r where h: "handleEvent dims lb ev = (lb', r)" by (cases "handleEvent dims lb ev")
  from Cons.prems e have d: "spec_direction ev \<noteq> 0" by simp
  from handleEvent_nav [OF d Cons.prems(2) Cons.prems(3), of dims] h
  have r: "r = None" and c: "content lb' = content lb"
    and s: "selectIndex lb' = spec_move (len (content lb)) (selectIndex lb) ev" by simp_all
  from spec_move_range [OF Cons.prems(2) Cons.prems(3), of ev] s c
  have b: "0 \<le> selectIndex lb'" "selectIndex lb' < len (content lb')" by simp_all
  from Cons.prems(1) have "\<forall>e \<in> set evs. spec_direction (fst e) \<noteq> 0" by simp
  from Cons.IH [OF this b] show ?case using e h r c s by simp
qed

lemma displayAndSelect_append:
  "snd (displayAndSelect None dims lb evs) = None \<Longrightarrow>
     displayAndSelect None dims lb (evs @ [(ev, d)])
       = handleEvent d (fst (displayAndSelect None dims lb evs)) ev"
proof -
  assume a: "snd (displayAndSelect None dims lb evs) = None"
  obtain lb' r where h: "handleEvent d (fst (pollEvents (fst (drawContent dims lb)) evs)) ev = (lb', r)"
    by (cases "handleEvent d (fst (pollEvents (fst (drawContent dims lb)) evs)) ev")
  from a have "snd (pollEvents (fst (drawContent dims lb)) evs) = None"
    by (simp add: displayAndSelect_def)
  from pollEvents_append [OF this, of "[(ev, d)]"] h show ?thesis
    by (cases r) (simp_all add: displayAndSelect_def)
qed

text \<open>
  Claim C9. Let the selection index of a list box lie within its content (then the content is
  not empty), and let every event of a finite sequence be a navigation event. Then
  \<open>displayAndSelect\<close> does not return on these events, the content is unchanged, the index
  is the one that the specification's clamped steps of one give, and it lies in
  \<open>[0, len(content) - 1]\<close>: a step past either end leaves the index where it is.
\<close>

theorem selection_stays_in_range:
  assumes "\<forall>e \<in> set evs. spec_direction (fst e) \<noteq> 0"
    and "0 \<le> selectIndex lb" and "selectIndex lb < len (content lb)"
  shows "snd (displayAndSelect None dims lb evs) = None
     \<and> content (fst (displayAndSelect None dims lb evs)) = content lb
     \<and> selectIndex (fst (displayAndSelect None dims lb evs))
         = foldl (spec_move (len (content lb))) (selectIndex lb) (map fst evs)
     \<and> 0 \<le> selectIndex (fst (displayAndSelect None dims lb evs))
     \<and> selectIndex (fst (displayAndSelect None dims lb evs)) < len (content lb)"
proof -
  let ?lb = "fst (drawContent dims lb)"
  have k: "selectIndex ?lb = selectIndex lb" "content ?lb = content lb"
    by (simp_all add: drawContent_keeps)
  from assms k have "0 \<le> selectIndex ?lb" "selectIndex ?lb < len (content ?lb)" by simp_all
  from pollEvents_nav [OF assms(1) this] k show ?thesis by (simp add: displayAndSelect_def)
qed

text \<open>
  C9 on a list of three lines, for an up, three downs and a page up, every one of which
  the specification counts as a navigation event: up at the top stays at 0, the three
  steps down stop at 2, and the page up ends at 1.
\<close>

theorem selection_stays_in_range_witness:
  "map spec_direction (map fst navigation) = [- 1, 1, 1, 1, - 1]
   \<and> 0 \<le> selectIndex threeLines \<and> selectIndex threeLines < len (content threeLines)
   \<and> snd (displayAndSelect None (80, 24) threeLines navigation) = None
   \<and> selectIndex (fst (displayAndSelect None (80, 24) threeLines navigation)) = 1
   \<and> foldl (spec_move 3) 0 (map fst navigation) = 1"
proof -
  have d: "map spec_direction (map fst navigation) = [- 1, 1, 1, 1, - 1]" by code_simp
  have h1: "\<forall>e \<in> set navigation. spec_direction (fst e) \<noteq> 0" by code_simp
  have h2: "0 \<le> selectIndex threeLines" by code_simp
  have h3: "selectIndex threeLines < len (content threeLines)" by code_simp
  have e: "foldl (spec_move 3) 0 (map fst navigation) = 1" by code_simp
  have c: "len (content threeLines) = 3" "selectIndex threeLines = 0" by code_simp+
  from selection_stays_in_range [OF h1 h2 h3, of "(80, 24)"] d h2 h3 e c
  show ?thesis by simp
qed

text \<open>
  Claim C4, as the specification words it, fails: on a list whose selection is at the first
  line, Ctrl-C and Esc leave \<open>displayAndSelect\<close> with the same index and the same error, and
  so does the quit character.
\<close>

theorem interrupt_and_escape_same_outcome:
  "displayAndSelect None (80, 24) threeLines [(keyEvent KeyCtrlC, (80, 24))]
     = displayAndSelect None (80, 24) threeLines [(keyEvent KeyEsc, (80, 24))]
   \<and> snd (displayAndSelect None (80, 24) threeLines [(keyEvent KeyCtrlC, (80, 24))])
     = Some (0, Some errCtrlC)
   \<and> snd (displayAndSelect None (80, 24) threeLines [(keyEvent KeyEsc, (80, 24))])
     = Some (0, Some errCtrlC)
   \<and> snd (displayAndSelect None (80, 24) threeLines [(chEvent CHR ''q'', (80, 24))])
     = Some (0, Some errCtrlC)"
  by code_simp

text \<open>
  Claim C4, amended. After any events that did not close the list, Ctrl-C, Esc, \<open>q\<close> and
  \<open>Q\<close> all return the one error value \<open>errCtrlC\<close>; the interrupt returns the selected
  index with it and the other three return 0, so the results differ only in the index, and
  only when the selection is not at the first line. They are told apart from Enter, which
  returns the selected index and no error, and from a fault of the terminal, which returns
  -1 and the error of the event.
\<close>

theorem cancellations_share_errCtrlC:
  assumes "snd (displayAndSelect None dims lb evs) = None"
  shows "snd (displayAndSelect None dims lb (evs @ [(keyEvent KeyCtrlC, d)]))
       = Some (selectIndex (fst (displayAndSelect None dims lb evs)), Some errCtrlC)
     \<and> snd (displayAndSelect None dims lb (evs @ [(keyEvent KeyEsc, d)])) = Some (0, Some errCtrlC)
     \<and> snd (displayAndSelect None dims lb (evs @ [(chEvent CHR ''q'', d)])) = Some (0, Some errCtrlC)
     \<and> snd (displayAndSelect None dims lb (evs @ [(chEvent CHR ''Q'', d)])) = Some (0, Some errCtrlC)
     \<and> snd (displayAndSelect None dims lb (evs @ [(keyEvent KeyEnter, d)]))
       = Some (selectIndex (fst (displayAndSelect None dims lb evs)), None)
     \<and> snd (displayAndSelect None dims lb
              (evs @ [(\<lparr>Event.Type = EventError, Key = KeyOther, Ch = 0, Err = Some e\<rparr>, d)]))
       = Some (- 1, Some e)"
  by (simp add: displayAndSelect_append [OF assms] handleEvent_def handleCh_def keyEvent_def
      chEvent_def)

text \<open>The amended C4 after one step down on the list of three lines.\<close>

theorem cancellations_share_errCtrlC_witness:
  "snd (displayAndSelect None (80, 24) threeLines [(keyEvent KeyArrowDown, (80, 24))]) = None
   \<and> snd (displayAndSelect None (80, 24) threeLines
        [(keyEvent KeyArrowDown, (80, 24)), (keyEvent KeyCtrlC, (80, 24))]) = Some (1, Some errCtrlC)
   \<and> snd (displayAndSelect None (80, 24) threeLines
        [(keyEvent KeyArrowDown, (80, 24)), (keyEvent KeyEsc, (80, 24))]) = Some (0, Some errCtrlC)
   \<and> snd (displayAndSelect None (80, 24) threeLines
        [(keyEvent KeyArrowDown, (80, 24)), (keyEvent KeyEnter, (80, 24))]) = Some (1, None)"
proof -
  have h: "snd (displayAndSelect None (80, 24) threeLines [(keyEvent KeyArrowDown, (80, 24))]) = None"
    by code_simp
  have s: "selectIndex (fst (displayAndSelect None (80, 24) threeLines
      [(keyEvent KeyArrowDown, (80, 24))])) = 1" by code_simp
  from cancellations_share_errCtrlC [OF h, of "(80, 24)"] h s show ?thesis by simp
qed

subsection \<open>The loop over the virtual machines\<close>

text \<open>The loop handles a list of machines piece by piece.\<close>

lemma availableIps_append:
  "availableIps w (pre @ post) acc =
     (case availableIps w pre acc of Inl p \<Rightarrow> Inl p | Inr acc' \<Rightarrow> availableIps w post acc')"
proof (induction pre arbitrary: acc)
  case Nil
  show ?case by simp
next
  case (Cons v pre)
  show ?case
  proof (cases v)
    case None
    then show ?thesis by simp
  next
    case (Some vm)
    then show ?thesis using Cons.IH
      by (simp split: sum.splits prod.splits option.splits)
  qed
qed

text \<open>
  Claim C10. For a VM that is not running, or whose guest system is neither \<open>linux\<close> nor
  \<open>ubuntu\<close>, \<open>showIpAddress\<close> returns no address and an error that names the cause. The
  loop of \<open>main\<close> drops that VM and goes on: the list it builds is the one it builds
  without the VM, whatever machines come before and after it.
\<close>

theorem skipped_vm_is_absorbed:
  assumes "VM.State vm \<noteq> ''running'' \<or> (OS vm \<noteq> ''linux'' \<and> OS vm \<noteq> ''ubuntu'')"
  shows "showIpAddress w vm =
       Inr ([], Some (ErrorString (if VM.State vm \<noteq> ''running''
                                   then VM.Name vm @ ''('' @ ID vm @ '') not running''
                                   else OS vm @ '' is not supported'')))
     \<and> availableIps w (pre @ Some vm # post) acc = availableIps w (pre @ post) acc"
proof -
  have s: "showIpAddress w vm =
       Inr ([], Some (ErrorString (if VM.State vm \<noteq> ''running''
                                   then VM.Name vm @ ''('' @ ID vm @ '') not running''
                                   else OS vm @ '' is not supported'')))"
    using assms by (auto simp add: showIpAddress_def)
  have "availableIps w (Some vm # post) acc' = availableIps w post acc'" for acc'
    by (simp add: s)
  then have "availableIps w (pre @ Some vm # post) acc = availableIps w (pre @ post) acc"
    by (simp add: availableIps_append [of w pre] split: sum.splits)
  with s show ?thesis by simp
qed

text \<open>
  C10 for a stopped VM between two running ones: the addresses of the two running machines
  are in the result.
\<close>

theorem skipped_vm_is_absorbed_witness:
  "VM.State (linuxVM ''stopped'' ''linux'' macHardware) \<noteq> ''running''
   \<and> showIpAddress (worldOf oneInterfaceGuest macHardware) (linuxVM ''stopped'' ''linux'' macHardware)
       = Inr ([], Some (ErrorString ''dev(vm1) not running''))
   \<and> availableIps (worldOf oneInterfaceGuest macHardware)
        ([Some (linuxVM ''running'' ''ubuntu'' macHardware)]
           @ Some (linuxVM ''stopped'' ''linux'' macHardware)
           # [Some (linuxVM ''running'' ''linux'' macHardware)]) []
       = Inr [net0Address (linuxVM ''running'' ''ubuntu'' macHardware) (etherRecord ''e0'' ''00:1c:42:c4:5c:24''),
              net0Address (linuxVM ''running'' ''linux'' macHardware) (etherRecord ''e0'' ''00:1c:42:c4:5c:24'')]"
proof -
  have h0: "VM.State (linuxVM ''stopped'' ''linux'' macHardware) \<noteq> ''running''" by code_simp
  then have h: "VM.State (linuxVM ''stopped'' ''linux'' macHardware) \<noteq> ''running''
     \<or> (OS (linuxVM ''stopped'' ''linux'' macHardware) \<noteq> ''linux''
        \<and> OS (linuxVM ''stopped'' ''linux'' macHardware) \<noteq> ''ubuntu'')" by (rule disjI1)
  have e: "availableIps (worldOf oneInterfaceGuest macHardware)
        ([Some (linuxVM ''running'' ''ubuntu'' macHardware)]
           @ [Some (linuxVM ''running'' ''linux'' macHardware)]) []
       = Inr [net0Address (linuxVM ''running'' ''ubuntu'' macHardware) (etherRecord ''e0'' ''00:1c:42:c4:5c:24''),
              net0Address (linuxVM ''running'' ''linux'' macHardware) (etherRecord ''e0'' ''00:1c:42:c4:5c:24'')]"
    by code_simp
  have n: "(if VM.State (linuxVM ''stopped'' ''linux'' macHardware) \<noteq> ''running''
            then VM.Name (linuxVM ''stopped'' ''linux'' macHardware) @ ''('' @
                 ID (linuxVM ''stopped'' ''linux'' macHardware) @ '') not running''
            else OS (linuxVM ''stopped'' ''linux'' macHardware) @ '' is not supported'')
      = ''dev(vm1) not running''" by code_simp
  note t = skipped_vm_is_absorbed [OF h, of "worldOf oneInterfaceGuest macHardware"
      "[Some (linuxVM ''running'' ''ubuntu'' macHardware)]"
      "[Some (linuxVM ''running'' ''linux'' macHardware)]" "[]"]
  from t [THEN conjunct1] n
  have b: "showIpAddress (worldOf oneInterfaceGuest macHardware)
      (linuxVM ''stopped'' ''linux'' macHardware)
       = Inr ([], Some (ErrorString ''dev(vm1) not running''))" by (simp only:)
  from t [THEN conjunct2] e
  have a: "availableIps (worldOf oneInterfaceGuest macHardware)
        ([Some (linuxVM ''running'' ''ubuntu'' macHardware)]
           @ Some (linuxVM ''stopped'' ''linux'' macHardware)
           # [Some (linuxVM ''running'' ''linux'' macHardware)]) []
       = Inr [net0Address (linuxVM ''running'' ''ubuntu'' macHardware) (etherRecord ''e0'' ''00:1c:42:c4:5c:24''),
              net0Address (linuxVM ''running'' ''linux'' macHardware) (etherRecord ''e0'' ''00:1c:42:c4:5c:24'')]"
    by (simp only:)
  from h0 b a show ?thesis by blast
qed

subsection \<open>Pairing interfaces with adapters\<close>

text \<open>
  What a match says about the adapter it comes from, what the outer loop adds to its
  result, and three facts about lists and the comparison that the last part of the
  invariant needs.
\<close>

lemma matchAdapter_Some:
  "matchAdapter vm ip hw = Inr (Some a) \<Longrightarrow>
     IP a = ip \<and> VM a = vm \<and> HasPrefix (IpAddr.Name a) ''net''
     \<and> (\<exists>params. (IpAddr.Name a, params) \<in> set hw
          \<and> map_of params ''enabled'' = Some (JBool True)
          \<and> compareMac (Mac ip) (asString (map_of params ''mac'')) = Inr True)"
proof (induction hw)
  case Nil
  then show ?case by simp
next
  case (Cons d hw)
  obtain dev params where d: "d = (dev, params)" by (cases d)
  show ?case
  proof (cases "HasPrefix dev ''net'' \<and> map_of params ''enabled'' = Some (JBool True)
      \<and> compareMac (Mac ip) (asString (map_of params ''mac'')) = Inr True")
    case True
    with Cons.prems d have "a = \<lparr>IP = ip, VM = vm, IpAddr.Name = dev,
        IsDefault = (map_of params ''iface'' = Some (JString ''default'')),
        IpAddr.Type = asString (map_of params ''type'')\<rparr>" by simp
    with True d show ?thesis by auto
  next
    case False
    with Cons.prems d have "matchAdapter vm ip hw = Inr (Some a)"
      by (auto split: if_splits sum.splits bool.splits)
    from Cons.IH [OF this] show ?thesis by auto
  qed
qed

lemma correlate_Inr:
  "correlate w vm k ips acc = Inr addrs \<Longrightarrow>
     \<exists>new. addrs = acc @ new \<and> subseq (map IP new) ips
       \<and> (\<forall>a \<in> set new. VM a = vm \<and> HasPrefix (IpAddr.Name a) ''net''
            \<and> (\<exists>j params. (IpAddr.Name a, params) \<in> set (rangeHardware w vm j)
                 \<and> map_of params ''enabled'' = Some (JBool True)
                 \<and> compareMac (Mac (IP a)) (asString (map_of params ''mac'')) = Inr True))"
proof (induction ips arbitrary: k acc)
  case Nil
  then show ?case by simp
next
  case (Cons ip ips)
  show ?case
  proof (cases "matchAdapter vm ip (rangeHardware w vm k)")
    case (Inl p)
    with Cons.prems show ?thesis by simp
  next
    case (Inr r)
    show ?thesis
    proof (cases r)
      case None
      with Inr Cons.prems have "correlate w vm (Suc k) ips acc = Inr addrs" by simp
      from Cons.IH [OF this] obtain new where n: "addrs = acc @ new" "subseq (map IP new) ips"
        "\<forall>a \<in> set new. VM a = vm \<and> HasPrefix (IpAddr.Name a) ''net''
            \<and> (\<exists>j params. (IpAddr.Name a, params) \<in> set (rangeHardware w vm j)
                 \<and> map_of params ''enabled'' = Some (JBool True)
                 \<and> compareMac (Mac (IP a)) (asString (map_of params ''mac'')) = Inr True)"
        by blast
      from n(2) have "subseq (map IP new) (ip # ips)" by (rule list_emb_Cons)
      with n(1) n(3) show ?thesis by blast
    next
      case (Some a)
      with Inr Cons.prems have "correlate w vm (Suc k) ips (acc @ [a]) = Inr addrs" by simp
      from Cons.IH [OF this] obtain new where n: "addrs = (acc @ [a]) @ new"
        "subseq (map IP new) ips"
        "\<forall>a \<in> set new. VM a = vm \<and> HasPrefix (IpAddr.Name a) ''net''
            \<and> (\<exists>j params. (IpAddr.Name a, params) \<in> set (rangeHardware w vm j)
                 \<and> map_of params ''enabled'' = Some (JBool True)
                 \<and> compareMac (Mac (IP a)) (asString (map_of params ''mac'')) = Inr True)"
        by blast
      from Inr Some have m: "matchAdapter vm ip (rangeHardware w vm k) = Inr (Some a)" by simp
      note ma = matchAdapter_Some [OF m]
      from ma n(2) have s: "subseq (map IP (a # new)) (ip # ips)" by simp
      from ma have "VM a = vm \<and> HasPrefix (IpAddr.Name a) ''net''
            \<and> (\<exists>j params. (IpAddr.Name a, params) \<in> set (rangeHardware w vm j)
                 \<and> map_of params ''enabled'' = Some (JBool True)
                 \<and> compareMac (Mac (IP a)) (asString (map_of params ''mac'')) = Inr True)"
        by blast
      with n(3) have q: "\<forall>a \<in> set (a # new). VM a = vm \<and> HasPrefix (IpAddr.Name a) ''net''
            \<and> (\<exists>j params. (IpAddr.Name a, params) \<in> set (rangeHardware w vm j)
                 \<and> map_of params ''enabled'' = Some (JBool True)
                 \<and> compareMac (Mac (IP a)) (asString (map_of params ''mac'')) = Inr True)"
        by simp
      from n(1) have "addrs = acc @ (a # new)" by simp
      with s q show ?thesis by blast
    qed
  qed
qed

lemma subseq_distinct: "subseq xs ys \<Longrightarrow> distinct ys \<Longrightarrow> distinct xs"
proof (induction ys arbitrary: xs)
  case Nil
  then have "xs = []" by (simp add: list_emb_Nil2)
  then show ?case by simp
next
  case (Cons y ys)
  show ?case
  proof (cases xs)
    case Nil
    then show ?thesis by simp
  next
    case (Cons x xs')
    show ?thesis
    proof (cases "x = y")
      case True
      with Cons Cons.prems have s: "subseq xs' ys" by simp
      from Cons.prems have dy: "distinct ys" and ny: "y \<notin> set ys" by simp_all
      from Cons.IH [OF s dy] have "distinct xs'" .
      moreover have "x \<notin> set xs'"
      proof
        assume "x \<in> set xs'"
        with s obtain z where "z \<in> set ys" "x = z" by (rule list_emb_set)
        with True ny show False by simp
      qed
      ultimately show ?thesis using Cons by simp
    next
      case False
      with Cons Cons.prems have "subseq xs ys" by simp
      moreover from Cons.prems have "distinct ys" by simp
      ultimately show ?thesis by (rule Cons.IH)
    qed
  qed
qed

lemma distinct_map_transfer:
  assumes "distinct (map f xs)"
    and "\<And>a b. a \<in> set xs \<Longrightarrow> b \<in> set xs \<Longrightarrow> g a = g b \<Longrightarrow> f a = f b"
  shows "distinct (map g xs)"
proof -
  from assms(1) have dx: "distinct xs" and inj: "inj_on f (set xs)"
    by (simp_all add: distinct_map)
  have "inj_on g (set xs)"
  proof (rule inj_onI)
    fix a b assume a: "a \<in> set xs" and b: "b \<in> set xs" and e: "g a = g b"
    from a b e have "f a = f b" by (rule assms(2))
    with inj show "a = b" using a b by (rule inj_onD)
  qed
  with dx show ?thesis by (simp add: distinct_map)
qed

lemma compareMac_same:
  "compareMac a m = Inr True \<Longrightarrow> compareMac b m = Inr True \<Longrightarrow> a = b"
  by (auto simp: compareMac_def split: sum.splits)

lemma showIpAddress_correlate:
  "showIpAddress w vm = Inr (addrs, err) \<Longrightarrow>
     addrs = [] \<or> correlate w vm 0 (fst (getIps w vm)) [] = Inr addrs"
  by (auto simp: showIpAddress_def split: if_splits prod.splits option.splits sum.splits)

text \<open>
  Claim C7, as the specification words it, fails in its first half: nothing in the loops
  keeps two interface records from matching one adapter. A guest whose bridge has the MAC
  of its member interface gets two addresses that both name the adapter \<open>net0\<close> of the
  same VM.
\<close>

theorem two_addresses_for_one_adapter:
  "showIpAddress (worldOf twinGuest macHardware) (linuxVM ''running'' ''linux'' macHardware)
     = Inr ([net0Address (linuxVM ''running'' ''linux'' macHardware)
               (etherRecord ''e0'' ''00:1c:42:c4:5c:24''),
             net0Address (linuxVM ''running'' ''linux'' macHardware)
               (etherRecord ''br0'' ''00:1c:42:c4:5c:24'')], None)
   \<and> IpAddr.Name (net0Address (linuxVM ''running'' ''linux'' macHardware)
               (etherRecord ''e0'' ''00:1c:42:c4:5c:24''))
     = IpAddr.Name (net0Address (linuxVM ''running'' ''linux'' macHardware)
               (etherRecord ''br0'' ''00:1c:42:c4:5c:24''))"
  by code_simp

text \<open>
  Claim C7, amended. Whenever \<open>showIpAddress\<close> returns, (1) the interface records of its
  addresses are a subsequence of the records that \<open>getIps\<close> gave, so an interface record
  has at most one address; (2) every address belongs to the VM, and its adapter key begins
  with \<open>net\<close> and stands for a descriptor that is enabled and whose normalised MAC is the
  MAC of the record, so a descriptor that is disabled or is no \<open>net\<close> device gives no
  address; (3) if every walk of the \<open>Hardware\<close> map visits each of its entries once, two
  addresses that name the same adapter have records with the same MAC; (4) hence, if in
  addition the records have pairwise different MACs, no two addresses name the same
  adapter. Without different MACs an adapter can be named twice, as for the bridge above.
\<close>

theorem showIpAddress_one_address_per_interface:
  assumes "showIpAddress w vm = Inr (addrs, err)"
  shows "subseq (map IP addrs) (fst (getIps w vm))
     \<and> (\<forall>a \<in> set addrs. VM a = vm \<and> HasPrefix (IpAddr.Name a) ''net''
          \<and> (\<exists>k params. (IpAddr.Name a, params) \<in> set (rangeHardware w vm k)
               \<and> map_of params ''enabled'' = Some (JBool True)
               \<and> compareMac (Mac (IP a)) (asString (map_of params ''mac'')) = Inr True))
     \<and> ((\<forall>k. rangeOk w vm k) \<longrightarrow>
          (\<forall>a \<in> set addrs. \<forall>b \<in> set addrs.
             IpAddr.Name a = IpAddr.Name b \<longrightarrow> Mac (IP a) = Mac (IP b)))
     \<and> (distinct (map Mac (fst (getIps w vm))) \<and> (\<forall>k. rangeOk w vm k)
          \<longrightarrow> distinct (map IpAddr.Name addrs))"
proof -
  let ?Q = "\<lambda>a. VM a = vm \<and> HasPrefix (IpAddr.Name a) ''net''
          \<and> (\<exists>k params. (IpAddr.Name a, params) \<in> set (rangeHardware w vm k)
               \<and> map_of params ''enabled'' = Some (JBool True)
               \<and> compareMac (Mac (IP a)) (asString (map_of params ''mac'')) = Inr True)"
  have a: "subseq (map IP addrs) (fst (getIps w vm)) \<and> (\<forall>a \<in> set addrs. ?Q a)"
  proof (cases "addrs = []")
    case True
    then show ?thesis by simp
  next
    case False
    with showIpAddress_correlate [OF assms]
    have "correlate w vm 0 (fst (getIps w vm)) [] = Inr addrs" by simp
    from correlate_Inr [OF this] show ?thesis by simp
  qed
  have same: "Mac (IP x) = Mac (IP y)"
    if r: "\<forall>k. rangeOk w vm k" and x: "x \<in> set addrs" and y: "y \<in> set addrs"
      and e: "IpAddr.Name x = IpAddr.Name y" for x y
  proof -
    from a x obtain i p where p: "(IpAddr.Name x, p) \<in> set (rangeHardware w vm i)"
      "compareMac (Mac (IP x)) (asString (map_of p ''mac'')) = Inr True" by blast
    from a y obtain j q where q: "(IpAddr.Name y, q) \<in> set (rangeHardware w vm j)"
      "compareMac (Mac (IP y)) (asString (map_of q ''mac'')) = Inr True" by blast
    from r have "set (rangeHardware w vm j) = set (rangeHardware w vm i)"
      and di: "distinct (map fst (rangeHardware w vm i))" by (simp_all add: rangeOk_def)
    with q(1) e have qi: "(IpAddr.Name x, q) \<in> set (rangeHardware w vm i)" by simp
    from di p(1) qi have "p = q" by (rule eq_key_imp_eq_value)
    with q(2) have "compareMac (Mac (IP y)) (asString (map_of p ''mac'')) = Inr True" by simp
    with p(2) show ?thesis by (rule compareMac_same)
  qed
  have b: "(\<forall>k. rangeOk w vm k) \<longrightarrow>
      (\<forall>a \<in> set addrs. \<forall>b \<in> set addrs.
         IpAddr.Name a = IpAddr.Name b \<longrightarrow> Mac (IP a) = Mac (IP b))"
    using same by blast
  have c: "distinct (map IpAddr.Name addrs)"
    if d: "distinct (map Mac (fst (getIps w vm)))" and r: "\<forall>k. rangeOk w vm k"
  proof -
    from a have "subseq (map IP addrs) (fst (getIps w vm))" by (rule conjunct1)
    then have "subseq (map Mac (map IP addrs)) (map Mac (fst (getIps w vm)))"
      by (rule subseq_map)
    then have "distinct (map Mac (map IP addrs))" using d by (rule subseq_distinct)
    then have dm: "distinct (map (\<lambda>a. Mac (IP a)) addrs)" by (simp add: comp_def)
    from dm same [OF r] show ?thesis by (rule distinct_map_transfer)
  qed
  from a b c show ?thesis by blast
qed

text \<open>The amended C7 for a guest with two interfaces, matched with \<open>net0\<close> and \<open>net1\<close>.\<close>

theorem showIpAddress_one_address_per_interface_witness:
  "showIpAddress (worldOf twoInterfaceGuest macHardware) (linuxVM ''running'' ''linux'' macHardware)
     = Inr ([net0Address (linuxVM ''running'' ''linux'' macHardware)
               (etherRecord ''e0'' ''00:1c:42:c4:5c:24''),
             net1Address (linuxVM ''running'' ''linux'' macHardware)
               (etherRecord ''e1'' ''00:1c:42:c4:5c:25'')], None)
   \<and> distinct (map Mac (fst (getIps (worldOf twoInterfaceGuest macHardware)
                                 (linuxVM ''running'' ''linux'' macHardware))))
   \<and> rangeOk (worldOf twoInterfaceGuest macHardware) (linuxVM ''running'' ''linux'' macHardware) 0
   \<and> subseq (map IP [net0Address (linuxVM ''running'' ''linux'' macHardware)
               (etherRecord ''e0'' ''00:1c:42:c4:5c:24''),
             net1Address (linuxVM ''running'' ''linux'' macHardware)
               (etherRecord ''e1'' ''00:1c:42:c4:5c:25'')])
        (fst (getIps (worldOf twoInterfaceGuest macHardware)
                     (linuxVM ''running'' ''linux'' macHardware)))
   \<and> distinct (map IpAddr.Name [net0Address (linuxVM ''running'' ''linux'' macHardware)
               (etherRecord ''e0'' ''00:1c:42:c4:5c:24''),
             net1Address (linuxVM ''running'' ''linux'' macHardware)
               (etherRecord ''e1'' ''00:1c:42:c4:5c:25'')])"
proof -
  let ?w = "worldOf twoInterfaceGuest macHardware"
  let ?vm = "linuxVM ''running'' ''linux'' macHardware"
  let ?addrs = "[net0Address ?vm (etherRecord ''e0'' ''00:1c:42:c4:5c:24''),
                 net1Address ?vm (etherRecord ''e1'' ''00:1c:42:c4:5c:25'')]"
  have h: "showIpAddress ?w ?vm = Inr (?addrs, None)" by code_simp
  have d: "distinct (map Mac (fst (getIps ?w ?vm)))" by code_simp
  have r: "rangeOk ?w ?vm k" for k
  proof -
    have "distinct (map fst macHardware)" by code_simp
    then show ?thesis by (simp add: rangeOk_def worldOf_def linuxVM_def)
  qed
  then have r': "\<forall>k. rangeOk ?w ?vm k" by simp
  note t = showIpAddress_one_address_per_interface [OF h]
  from t have s: "subseq (map IP ?addrs) (fst (getIps ?w ?vm))" by (rule conjunct1)
  from t [THEN conjunct2, THEN conjunct2, THEN conjunct2] d r'
  have n: "distinct (map IpAddr.Name ?addrs)" by blast
  from h d r [of 0] s n show ?thesis by blast
qed

subsection \<open>Reading the interfaces of a guest\<close>






text \<open>
  Claim C3, as the specification words it, fails in the order of the probes: the code asks
  for \<open>ifconfig\<close>, the older format, first. On a guest that has both commands it runs
  \<open>whereis ifconfig\<close> and \<open>ifconfig\<close> and nothing else, and the record it returns has no
  address, which only the listing of \<open>ip\<close> carries here.
\<close>

theorem getIps_uses_ifconfig_when_both_exist:
  "testCommandExists (worldOf bothGuest macHardware) (linuxVM ''running'' ''linux'' macHardware) ''ip''
   \<and> getIps_run (worldOf bothGuest macHardware) (linuxVM ''running'' ''linux'' macHardware)
     = (([etherRecord ''e0'' ''00:1c:42:c4:5c:24''], None),
        [[''exec'', ''vm1'', ''whereis'', ''ifconfig''], [''exec'', ''vm1'', ''ifconfig'']])"
  by code_simp

text \<open>
  Claim C3, amended. The order is fixed with \<open>ifconfig\<close> first: the first call is always
  the probe for \<open>ifconfig\<close>; \<open>ip\<close> is probed exactly when that probe fails; \<open>ifconfig\<close>
  is run exactly when its probe succeeds, and \<open>ip address show\<close> exactly when the probe
  for \<open>ifconfig\<close> fails and the one for \<open>ip\<close> succeeds, so never both. The records come
  from the output of the command chosen, and with neither command there is no record and
  the error \<open>No command to get ip address\<close>.
\<close>

theorem getIps_probes_ifconfig_first:
  "hd (snd (getIps_run w vm)) = [''exec'', ID vm, ''whereis'', ''ifconfig'']
   \<and> ([''exec'', ID vm, ''ifconfig''] \<in> set (snd (getIps_run w vm))
        \<longleftrightarrow> testCommandExists w vm ''ifconfig'')
   \<and> ([''exec'', ID vm, ''whereis'', ''ip''] \<in> set (snd (getIps_run w vm))
        \<longleftrightarrow> \<not> testCommandExists w vm ''ifconfig'')
   \<and> ([''exec'', ID vm, ''ip'', ''address'', ''show''] \<in> set (snd (getIps_run w vm))
        \<longleftrightarrow> \<not> testCommandExists w vm ''ifconfig'' \<and> testCommandExists w vm ''ip'')
   \<and> (testCommandExists w vm ''ifconfig'' \<longrightarrow>
        getIps w vm = (case exec w vm [''ifconfig''] of
                         (output, Some err) \<Rightarrow> ([], Some err)
                       | (output, None) \<Rightarrow> (scanInterfaces True (scanLines output) None [], None)))
   \<and> (\<not> testCommandExists w vm ''ifconfig'' \<and> testCommandExists w vm ''ip'' \<longrightarrow>
        getIps w vm = (case exec w vm [''ip'', ''address'', ''show''] of
                         (output, Some err) \<Rightarrow> ([], Some err)
                       | (output, None) \<Rightarrow> (scanInterfaces False (scanLines output) None [], None)))
   \<and> (\<not> testCommandExists w vm ''ifconfig'' \<and> \<not> testCommandExists w vm ''ip'' \<longrightarrow>
        getIps w vm = ([], Some (ErrorString ''No command to get ip address'')))"
  by (simp add: getIps_def getIps_run_def)

text \<open>The amended C3 on a guest that has only \<open>ip\<close>.\<close>

theorem getIps_probes_ifconfig_first_witness:
  "\<not> testCommandExists (worldOf ipOnlyGuest macHardware) (linuxVM ''running'' ''linux'' macHardware)
       ''ifconfig''
   \<and> testCommandExists (worldOf ipOnlyGuest macHardware) (linuxVM ''running'' ''linux'' macHardware)
       ''ip''
   \<and> snd (getIps_run (worldOf ipOnlyGuest macHardware) (linuxVM ''running'' ''linux'' macHardware))
       = [[''exec'', ''vm1'', ''whereis'', ''ifconfig''], [''exec'', ''vm1'', ''whereis'', ''ip''],
          [''exec'', ''vm1'', ''ip'', ''address'', ''show'']]
   \<and> getIps (worldOf ipOnlyGuest macHardware) (linuxVM ''running'' ''linux'' macHardware)
       = ([loRecord, e0Record], None)"
proof -
  let ?w = "worldOf ipOnlyGuest macHardware"
  let ?vm = "linuxVM ''running'' ''linux'' macHardware"
  have h1: "\<not> testCommandExists ?w ?vm ''ifconfig''" by code_simp
  have h2: "testCommandExists ?w ?vm ''ip''" by code_simp
  have l: "snd (getIps_run ?w ?vm)
       = [[''exec'', ''vm1'', ''whereis'', ''ifconfig''], [''exec'', ''vm1'', ''whereis'', ''ip''],
          [''exec'', ''vm1'', ''ip'', ''address'', ''show'']]" by code_simp
  have e: "(case exec ?w ?vm [''ip'', ''address'', ''show''] of
              (output, Some err) \<Rightarrow> ([], Some err)
            | (output, None) \<Rightarrow> (scanInterfaces False (scanLines output) None [], None))
       = ([loRecord, e0Record], None)" by code_simp
  from getIps_probes_ifconfig_first [of ?w ?vm] h1 h2 e
  have g: "getIps ?w ?vm = ([loRecord, e0Record], None)" by simp
  from h1 h2 l g show ?thesis by blast
qed

end
